theory Spec2Isabelle
  imports Main "HOL-Library.Sublist" "HOL-Library.Word"
begin

section \<open>Errors and JavaScript values\<close>

text \<open>
  An exception of the source is a value: the three error classes the modelled code can
  raise, each with its message. A function that can throw returns \<open>error + 'a\<close>, with
  \<open>Inl\<close> for the exception.
\<close>

datatype error = Error string | TypeError string | RangeError string

fun message :: "error \<Rightarrow> string" where
  "message (Error m) = m"
| "message (TypeError m) = m"
| "message (RangeError m) = m"

text \<open>\<open>String.prototype.includes\<close>: the argument occurs as a contiguous run.\<close>

fun str_includes :: "string \<Rightarrow> string \<Rightarrow> bool" where
  "str_includes [] t = (t = [])"
| "str_includes (c # cs) t = (prefix t (c # cs) \<or> str_includes cs t)"

text \<open>\<open>Array.prototype.join\<close> on an array of strings.\<close>

fun join :: "string list \<Rightarrow> string \<Rightarrow> string" where
  "join [] sep = []"
| "join [x] sep = x"
| "join (x # y # xs) sep = x @ sep @ join (y # xs) sep"

section \<open>Data residency: the rule registry\<close>

record Restrictions =
  allowedRegions :: "string list"
  prohibitedRegions :: "string list"
  requiresEncryption :: bool
  retentionPeriodDays :: int

record DataResidencyRule =
  ruleOrgId :: string
  region :: string
  dataTypes :: "string list"
  restrictions :: Restrictions

datatype Level = Public | Internal | Confidential | Restricted

record DataClassification =
  level :: Level
  categories :: "string list"
  personalData :: bool
  financialData :: bool
  healthData :: bool

datatype Operation = Store | Process | Transfer

record Verdict =
  allowed :: bool
  reason :: "string option"
  requirements :: "string list"

text \<open>
  The registry \<open>residencyRules\<close> is a JavaScript \<open>Map\<close>: it iterates in insertion order,
  and \<open>set\<close> on a key already present replaces the value where it stands. It is an
  association list with distinct keys, oldest first.
\<close>

type_synonym registry = "(string \<times> DataResidencyRule) list"

fun map_set :: "registry \<Rightarrow> string \<Rightarrow> DataResidencyRule \<Rightarrow> registry" where
  "map_set [] k v = [(k, v)]"
| "map_set ((k', v') # m) k v =
     (if k' = k then (k, v) # m else (k', v') # map_set m k v)"

definition map_get :: "registry \<Rightarrow> string \<Rightarrow> DataResidencyRule option" where
  "map_get m k = map_of m k"

definition EU_rule :: DataResidencyRule where
  "EU_rule = \<lparr>ruleOrgId = ''*'', region = ''EU'',
     dataTypes = [''personal'', ''financial'', ''health''],
     restrictions = \<lparr>allowedRegions = [''EU'', ''EEA''],
       prohibitedRegions = [''US'', ''CN'', ''RU''],
       requiresEncryption = True, retentionPeriodDays = 2555\<rparr>\<rparr>"

definition US_rule :: DataResidencyRule where
  "US_rule = \<lparr>ruleOrgId = ''*'', region = ''US'',
     dataTypes = [''financial'', ''health''],
     restrictions = \<lparr>allowedRegions = [''US'', ''CA''],
       prohibitedRegions = [''CN'', ''RU'', ''IR''],
       requiresEncryption = True, retentionPeriodDays = 2555\<rparr>\<rparr>"

definition FINANCIAL_rule :: DataResidencyRule where
  "FINANCIAL_rule = \<lparr>ruleOrgId = ''*'', region = ''GLOBAL'',
     dataTypes = [''financial'', ''trading'', ''risk''],
     restrictions = \<lparr>allowedRegions = [''US'', ''EU'', ''UK'', ''CA'', ''AU'', ''SG''],
       prohibitedRegions = [''CN'', ''RU'', ''IR'', ''KP''],
       requiresEncryption = True, retentionPeriodDays = 2555\<rparr>\<rparr>"

definition initializeDefaultRules :: registry where
  "initializeDefaultRules =
     map_set (map_set (map_set [] ''EU'' EU_rule) ''US'' US_rule) ''FINANCIAL'' FINANCIAL_rule"

definition registerOrgRules :: "registry \<Rightarrow> string \<Rightarrow> DataResidencyRule \<Rightarrow> registry" where
  "registerOrgRules m org rules = map_set m (''ORG_'' @ org) rules"

section \<open>Data residency: gathering the applicable rules\<close>

text \<open>
  TypeScript's types are erased when the service runs, so a caller can hand
  \<open>validateDataOperation\<close> a \<open>null\<close> classification; reading a property of it throws a
  \<open>TypeError\<close>. The classification argument is therefore an option, \<open>None\<close> for
  \<open>null\<close>, and the functions that read it can fail.
\<close>

definition null_read :: "string \<Rightarrow> error" where
  "null_read p =
     TypeError (''Cannot read properties of null (reading '' @ [CHR 0x27] @ p @ [CHR 0x27] @ '')'')"

fun matchesClassification :: "DataResidencyRule \<Rightarrow> DataClassification option \<Rightarrow> error + bool" where
  "matchesClassification rule None = Inl (null_read ''financialData'')"
| "matchesClassification rule (Some classification) =
     Inr (if financialData classification \<and> ''financial'' \<in> set (dataTypes rule) then True
          else if personalData classification \<and> ''personal'' \<in> set (dataTypes rule) then True
          else if healthData classification \<and> ''health'' \<in> set (dataTypes rule) then True
          else False)"

text \<open>
  The loop over \<open>residencyRules.entries()\<close>: keys that start with \<open>ORG_\<close> are skipped,
  and \<open>matchesClassification\<close> is only called when the data type is not listed
  (\<open>||\<close> short-circuits).
\<close>

fun globalRules :: "registry \<Rightarrow> string \<Rightarrow> DataClassification option \<Rightarrow> error + DataResidencyRule list" where
  "globalRules [] dataType classification = Inr []"
| "globalRules ((key, rule) # es) dataType classification =
     (if prefix ''ORG_'' key then globalRules es dataType classification
      else if dataType \<in> set (dataTypes rule) then
        (case globalRules es dataType classification of
           Inl e \<Rightarrow> Inl e
         | Inr rules \<Rightarrow> Inr (rule # rules))
      else
        (case matchesClassification rule classification of
           Inl e \<Rightarrow> Inl e
         | Inr m \<Rightarrow>
            (case globalRules es dataType classification of
               Inl e \<Rightarrow> Inl e
             | Inr rules \<Rightarrow> Inr (if m then rule # rules else rules))))"

definition orgRules :: "registry \<Rightarrow> string \<Rightarrow> string \<Rightarrow> DataResidencyRule list" where
  "orgRules m org dataType =
     (case map_get m (''ORG_'' @ org) of
        None \<Rightarrow> []
      | Some orgRule \<Rightarrow> if dataType \<in> set (dataTypes orgRule) then [orgRule] else [])"

definition getApplicableRules ::
  "registry \<Rightarrow> string \<Rightarrow> string \<Rightarrow> DataClassification option \<Rightarrow> error + DataResidencyRule list" where
  "getApplicableRules m org dataType classification =
     (case globalRules m dataType classification of
        Inl e \<Rightarrow> Inl e
      | Inr rules \<Rightarrow> Inr (orgRules m org dataType @ rules))"

section \<open>Data residency: the verdict\<close>

definition prohibitedReason :: "string \<Rightarrow> DataResidencyRule \<Rightarrow> string" where
  "prohibitedReason targetRegion rule =
     ''Data transfer to '' @ targetRegion @ '' is prohibited by '' @ region rule @ '' regulations''"

definition notAllowedReason :: "string \<Rightarrow> DataResidencyRule \<Rightarrow> string" where
  "notAllowedReason targetRegion rule =
     ''Data transfer to '' @ targetRegion @ '' is not in allowed regions: ''
       @ join (allowedRegions (restrictions rule)) '', ''"

definition deny :: "string \<Rightarrow> Verdict" where
  "deny r = \<lparr>allowed = False, reason = Some r, requirements = []\<rparr>"

text \<open>The first loop of \<open>validateDataOperation\<close>; \<open>Some\<close> is its early \<open>return\<close>.\<close>

fun checkRegions :: "DataResidencyRule list \<Rightarrow> string \<Rightarrow> Verdict option" where
  "checkRegions [] targetRegion = None"
| "checkRegions (rule # rules) targetRegion =
     (if targetRegion \<in> set (prohibitedRegions (restrictions rule)) then
        Some (deny (prohibitedReason targetRegion rule))
      else if length (allowedRegions (restrictions rule)) > 0
              \<and> targetRegion \<notin> set (allowedRegions (restrictions rule)) then
        Some (deny (notAllowedReason targetRegion rule))
      else checkRegions rules targetRegion)"

text \<open>The second loop: each rule pushes its requirements, reading the classification.\<close>

fun collectRequirements :: "DataResidencyRule list \<Rightarrow> DataClassification option \<Rightarrow> error + string list" where
  "collectRequirements [] classification = Inr []"
| "collectRequirements (rule # rules) None = Inl (null_read ''personalData'')"
| "collectRequirements (rule # rules) (Some classification) =
     (case collectRequirements rules (Some classification) of
        Inl e \<Rightarrow> Inl e
      | Inr rest \<Rightarrow>
          Inr ((if requiresEncryption (restrictions rule)
                then [''Data must be encrypted at rest and in transit''] else [])
             @ (if personalData classification
                then [''Personal data processing requires explicit consent''] else [])
             @ (if level classification = Restricted
                then [''Restricted data requires additional access controls''] else [])
             @ rest))"

text \<open>\<open>[...new Set(requirements)]\<close>: the first occurrence of each string, in order.\<close>

definition uniq :: "string list \<Rightarrow> string list" where
  "uniq xs = fold (\<lambda>x seen. if x \<in> set seen then seen else seen @ [x]) xs []"

definition validate_try ::
  "registry \<Rightarrow> string \<Rightarrow> string \<Rightarrow> Operation \<Rightarrow> string \<Rightarrow> DataClassification option \<Rightarrow> error + Verdict" where
  "validate_try m org dataType operation targetRegion classification =
     (case getApplicableRules m org dataType classification of
        Inl e \<Rightarrow> Inl e
      | Inr applicableRules \<Rightarrow>
          (case checkRegions applicableRules targetRegion of
             Some v \<Rightarrow> Inr v
           | None \<Rightarrow>
               (case collectRequirements applicableRules classification of
                  Inl e \<Rightarrow> Inl e
                | Inr reqs \<Rightarrow> Inr \<lparr>allowed = True, reason = None, requirements = uniq reqs\<rparr>)))"

text \<open>The \<open>catch\<close> of \<open>validateDataOperation\<close> turns every exception into one verdict.\<close>

definition validateDataOperation ::
  "registry \<Rightarrow> string \<Rightarrow> string \<Rightarrow> Operation \<Rightarrow> string \<Rightarrow> DataClassification option \<Rightarrow> Verdict" where
  "validateDataOperation m org dataType operation targetRegion classification =
     (case validate_try m org dataType operation targetRegion classification of
        Inl e \<Rightarrow> deny ''Data residency validation failed''
      | Inr v \<Rightarrow> v)"

section \<open>Data residency: retention\<close>

text \<open>\<open>Math.min(...xs)\<close> on a list that is not empty (the caller has checked).\<close>

fun Math_min :: "int list \<Rightarrow> int" where
  "Math_min [] = 0"
| "Math_min (x # xs) = fold min xs x"

definition plainClassification :: "string \<Rightarrow> DataClassification" where
  "plainClassification dataType =
     \<lparr>level = Internal, categories = [dataType], personalData = False,
      financialData = False, healthData = False\<rparr>"

definition getRetentionPeriod :: "registry \<Rightarrow> string \<Rightarrow> string \<Rightarrow> error + int" where
  "getRetentionPeriod m org dataType =
     (case getApplicableRules m org dataType (Some (plainClassification dataType)) of
        Inl e \<Rightarrow> Inl e
      | Inr rules \<Rightarrow>
          if length rules = 0 then Inr 2555
          else Inr (Math_min (map (\<lambda>rule. retentionPeriodDays (restrictions rule)) rules)))"

section \<open>Data classification\<close>

text \<open>
  A payload is a JavaScript value. \<open>hasField\<close> looks at a value only through
  \<open>typeof\<close>, the test against \<open>null\<close> and \<open>Object.entries\<close>, so an object (an array
  is one, its indices being the keys) is its list of entries, in the order
  \<open>Object.entries\<close> yields them. The content of a scalar is never read.
\<close>

datatype jsvalue =
    JUndefined
  | JNull
  | JBoolean bool
  | JNumber int
  | JString string
  | JObject "(string \<times> jsvalue) list"

fun isObject :: "jsvalue \<Rightarrow> bool" where
  "isObject (JObject es) = True"
| "isObject v = False"

text \<open>
  \<open>String.prototype.toLowerCase\<close> on the letters \<open>A\<close> to \<open>Z\<close>; every other
  character is left as it is. Outside ASCII the source's function does more (the Kelvin
  sign becomes \<open>k\<close>, which the keyword \<open>attack\<close> could meet), so the model agrees with
  the source on keys in ASCII, and on every key for a keyword without the letter \<open>k\<close>
  such as \<open>diagnosis\<close>.
\<close>

definition toLowerChar :: "char \<Rightarrow> char" where
  "toLowerChar c =
     (let n = (of_char c :: nat) in if 65 \<le> n \<and> n \<le> 90 then char_of (n + 32) else c)"

definition toLowerCase :: "string \<Rightarrow> string" where
  "toLowerCase s = map toLowerChar s"

text \<open>
  \<open>hasField\<close> and its loop over the entries: the key is tested first, then the value is
  searched when it is an object, then the next entry.
\<close>

fun hasField :: "jsvalue \<Rightarrow> string \<Rightarrow> bool"
  and hasField_entries :: "(string \<times> jsvalue) list \<Rightarrow> string \<Rightarrow> bool" where
  "hasField (JObject es) field = hasField_entries es field"
| "hasField JUndefined field = False"
| "hasField JNull field = False"
| "hasField (JBoolean b) field = False"
| "hasField (JNumber n) field = False"
| "hasField (JString s) field = False"
| "hasField_entries [] field = False"
| "hasField_entries ((key, val) # es) field =
     (if str_includes (toLowerCase key) (toLowerCase field) then True
      else if isObject val \<and> hasField val field then True
      else hasField_entries es field)"

text \<open>A \<open>for\<close> loop over keywords that stops at the first one found.\<close>

fun anyField :: "jsvalue \<Rightarrow> string list \<Rightarrow> bool" where
  "anyField data [] = False"
| "anyField data (field # rest) = (if hasField data field then True else anyField data rest)"

definition personalFields :: "string list" where
  "personalFields = [''email'', ''phone'', ''ssn'', ''passport'', ''name'', ''address'']"

definition financialFields :: "string list" where
  "financialFields = [''account'', ''balance'', ''transaction'', ''payment'', ''credit'', ''portfolio'']"

definition healthFields :: "string list" where
  "healthFields = [''medical'', ''diagnosis'', ''treatment'', ''prescription'', ''health'']"

definition riskFields :: "string list" where
  "riskFields = [''vulnerability'', ''threat'', ''incident'', ''breach'', ''attack'']"

definition classifyData :: "jsvalue \<Rightarrow> DataClassification" where
  "classifyData data =
     (let level0 = Internal;
          categories0 = [];
          personal = anyField data personalFields;
          categories1 = (if personal then categories0 @ [''personal''] else categories0);
          level1 = (if personal then Confidential else level0);
          financial = anyField data financialFields;
          categories2 = (if financial then categories1 @ [''financial''] else categories1);
          level2 = (if financial then Confidential else level1);
          health = anyField data healthFields;
          categories3 = (if health then categories2 @ [''health''] else categories2);
          level3 = (if health then Restricted else level2);
          risk = anyField data riskFields;
          categories4 = (if risk then categories3 @ [''security''] else categories3);
          level4 = (if risk \<and> level3 = Internal then Confidential else level3)
      in \<lparr>level = level4, categories = categories4, personalData = personal,
          financialData = financial, healthData = health\<rparr>)"

text \<open>The field names of a payload, at every depth.\<close>

fun fieldNames :: "jsvalue \<Rightarrow> string list"
  and fieldNames_entries :: "(string \<times> jsvalue) list \<Rightarrow> string list" where
  "fieldNames (JObject es) = fieldNames_entries es"
| "fieldNames JUndefined = []"
| "fieldNames JNull = []"
| "fieldNames (JBoolean b) = []"
| "fieldNames (JNumber n) = []"
| "fieldNames (JString s) = []"
| "fieldNames_entries [] = []"
| "fieldNames_entries ((key, val) # es) = key # fieldNames val @ fieldNames_entries es"

section \<open>The platform: Node's \<open>crypto\<close>, \<open>Buffer\<close>, \<open>Date\<close> and \<open>JSON\<close>\<close>

type_synonym byte = "8 word"
type_synonym buffer = "byte list"

text \<open>
  The service calls library functions whose code is not part of the repository. They are
  the fields of a record, and every definition below takes the record as its first
  argument. Each field stands for one use of the library in the source:
  \<^item> \<open>pbkdf2Sync password salt iterations keylen digest\<close>;
  \<^item> \<open>createCipher algorithm key aad plaintext\<close> is the life of one cipher object:
    \<open>createCipher(algorithm, key)\<close>, \<open>setAAD(aad)\<close>, \<open>update\<close> and \<open>final\<close> on the
    plaintext bytes, \<open>getAuthTag()\<close>; it yields the ciphertext and the tag. The source
    calls \<open>createCipher\<close>, which takes no initialisation vector;
  \<^item> \<open>createDecipher algorithm key aad tag ciphertext\<close> likewise: \<open>createDecipher\<close>,
    \<open>setAAD\<close>, \<open>setAuthTag\<close>, \<open>update\<close>, \<open>final\<close>; it throws or yields the plaintext bytes;
  \<^item> \<open>createHmac algorithm secret data\<close> is the digest's bytes;
  \<^item> the UTF-8 and base64 codecs of \<open>Buffer\<close>, \<open>Date.prototype.toISOString\<close> on a valid
    time value (milliseconds), and \<open>JSON.stringify\<close> on a value.
\<close>

record platform =
  pbkdf2Sync :: "string \<Rightarrow> buffer \<Rightarrow> nat \<Rightarrow> nat \<Rightarrow> string \<Rightarrow> buffer"
  createCipher :: "string \<Rightarrow> buffer \<Rightarrow> buffer \<Rightarrow> buffer \<Rightarrow> buffer \<times> buffer"
  createDecipher :: "string \<Rightarrow> buffer \<Rightarrow> buffer \<Rightarrow> buffer \<Rightarrow> buffer \<Rightarrow> error + buffer"
  createHmac :: "string \<Rightarrow> string \<Rightarrow> string \<Rightarrow> buffer"
  utf8_encode :: "string \<Rightarrow> buffer"
  utf8_decode :: "buffer \<Rightarrow> string"
  base64_encode :: "buffer \<Rightarrow> string"
  base64_decode :: "string \<Rightarrow> buffer"
  toISOString :: "int \<Rightarrow> string"
  JSON_stringify :: "jsvalue \<Rightarrow> error + string"

text \<open>\<open>ConfigService.get\<close> for the two secrets: \<open>None\<close> when the variable is not set.\<close>

record config =
  ENCRYPTION_MASTER_KEY :: "string option"
  HMAC_SECRET :: "string option"

text \<open>A string is falsy when it is \<open>undefined\<close> or empty.\<close>

fun truthy :: "string option \<Rightarrow> string option" where
  "truthy None = None"
| "truthy (Some s) = (if s = [] then None else Some s)"

subsection \<open>Hexadecimal text\<close>

definition hexDigit :: "nat \<Rightarrow> char" where
  "hexDigit n = (if n < 10 then char_of (48 + n) else char_of (87 + n))"

definition hexVal :: "char \<Rightarrow> nat option" where
  "hexVal c =
     (let k = (of_char c :: nat) in
      if 48 \<le> k \<and> k \<le> 57 then Some (k - 48)
      else if 97 \<le> k \<and> k \<le> 102 then Some (k - 87)
      else if 65 \<le> k \<and> k \<le> 70 then Some (k - 55)
      else None)"

text \<open>\<open>buf.toString('hex')\<close>, also the \<open>'hex'\<close> output of a cipher or a digest.\<close>

fun hex_encode :: "buffer \<Rightarrow> string" where
  "hex_encode [] = []"
| "hex_encode (b # bs) = hexDigit (unat b div 16) # hexDigit (unat b mod 16) # hex_encode bs"

text \<open>
  \<open>Buffer.from(s, 'hex')\<close>: pairs of digits, read until a pair is not hexadecimal; a
  last single character is dropped.
\<close>

fun hex_decode :: "string \<Rightarrow> buffer" where
  "hex_decode (a # b # rest) =
     (case (hexVal a, hexVal b) of
        (Some x, Some y) \<Rightarrow> of_nat (16 * x + y) # hex_decode rest
      | _ \<Rightarrow> [])"
| "hex_decode [a] = []"
| "hex_decode [] = []"

text \<open>\<open>buf.subarray(start, end)\<close> for \<open>start \<le> end\<close>, clamped to the buffer.\<close>

definition subarray :: "buffer \<Rightarrow> nat \<Rightarrow> nat \<Rightarrow> buffer" where
  "subarray b start fin = take (fin - start) (drop start b)"

text \<open>\<open>crypto.timingSafeEqual\<close> throws when the lengths differ.\<close>

definition timingSafeEqual :: "buffer \<Rightarrow> buffer \<Rightarrow> error + bool" where
  "timingSafeEqual a b =
     (if length a \<noteq> length b
      then Inl (RangeError ''Input buffers must have the same byte length'')
      else Inr (a = b))"

section \<open>EncryptionService\<close>

definition algorithm :: string where "algorithm = ''aes-256-gcm''"
definition keyLength :: nat where "keyLength = 32"
definition ivLength :: nat where "ivLength = 16"
definition tagLength :: nat where "tagLength = 16"

definition deriveKey :: "platform \<Rightarrow> config \<Rightarrow> buffer \<Rightarrow> error + buffer" where
  "deriveKey L cfg salt =
     (case truthy (ENCRYPTION_MASTER_KEY cfg) of
        None \<Rightarrow> Inl (Error ''ENCRYPTION_MASTER_KEY not configured'')
      | Some masterKey \<Rightarrow> Inr (pbkdf2Sync L masterKey salt 100000 keyLength ''sha256''))"

text \<open>\<open>orgId || 'global'\<close>\<close>

definition orgTag :: "string option \<Rightarrow> string" where
  "orgTag org = (case truthy org of None \<Rightarrow> ''global'' | Some t \<Rightarrow> t)"

text \<open>
  \<open>encrypt\<close>: the two \<open>randomBytes\<close> results are arguments. The vector \<open>iv\<close> is packed
  into the blob and, as in the source, handed to no cipher.
\<close>

definition encrypt_try ::
  "platform \<Rightarrow> config \<Rightarrow> buffer \<Rightarrow> buffer \<Rightarrow> string \<Rightarrow> string option \<Rightarrow> error + string" where
  "encrypt_try L cfg salt iv plaintext org =
     (case deriveKey L cfg salt of
        Inl e \<Rightarrow> Inl e
      | Inr key \<Rightarrow>
          (case createCipher L algorithm key (utf8_encode L (orgTag org)) (utf8_encode L plaintext) of
             (ciphertext, tag) \<Rightarrow>
               (let encrypted = hex_encode ciphertext;
                    combined = salt @ iv @ tag @ hex_decode encrypted
                in Inr (base64_encode L combined))))"

definition encrypt ::
  "platform \<Rightarrow> config \<Rightarrow> buffer \<Rightarrow> buffer \<Rightarrow> string \<Rightarrow> string option \<Rightarrow> error + string" where
  "encrypt L cfg salt iv plaintext org =
     (case encrypt_try L cfg salt iv plaintext org of
        Inl e \<Rightarrow> Inl (Error (''Encryption failed: '' @ message e))
      | Inr blob \<Rightarrow> Inr blob)"

definition decrypt_try :: "platform \<Rightarrow> config \<Rightarrow> string \<Rightarrow> string option \<Rightarrow> error + string" where
  "decrypt_try L cfg encryptedData org =
     (let combined = base64_decode L encryptedData;
          salt = subarray combined 0 16;
          iv = subarray combined 16 (16 + ivLength);
          tag = subarray combined (16 + ivLength) (16 + ivLength + tagLength);
          encrypted = drop (16 + ivLength + tagLength) combined
      in case deriveKey L cfg salt of
           Inl e \<Rightarrow> Inl e
         | Inr key \<Rightarrow>
             (case createDecipher L algorithm key (utf8_encode L (orgTag org)) tag encrypted of
                Inl e \<Rightarrow> Inl e
              | Inr decrypted \<Rightarrow> Inr (utf8_decode L decrypted)))"

definition decrypt :: "platform \<Rightarrow> config \<Rightarrow> string \<Rightarrow> string option \<Rightarrow> error + string" where
  "decrypt L cfg encryptedData org =
     (case decrypt_try L cfg encryptedData org of
        Inl e \<Rightarrow> Inl (Error (''Decryption failed: '' @ message e))
      | Inr plaintext \<Rightarrow> Inr plaintext)"

definition createHMAC :: "platform \<Rightarrow> config \<Rightarrow> string \<Rightarrow> string option \<Rightarrow> error + string" where
  "createHMAC L cfg data secret =
     (let hmacSecret = (case truthy secret of Some s \<Rightarrow> Some s | None \<Rightarrow> HMAC_SECRET cfg)
      in case truthy hmacSecret of
           None \<Rightarrow> Inl (Error ''HMAC_SECRET not configured'')
         | Some k \<Rightarrow> Inr (hex_encode (createHmac L ''sha256'' k data)))"

text \<open>
  \<open>verifyHMAC\<close>. The signature is an option because \<open>verifyAuditEntry\<close> passes the
  optional field \<open>entry.signature\<close>; \<open>Buffer.from(undefined, 'hex')\<close> throws.
\<close>

definition verifyHMAC ::
  "platform \<Rightarrow> config \<Rightarrow> string \<Rightarrow> string option \<Rightarrow> string option \<Rightarrow> error + bool" where
  "verifyHMAC L cfg data signature secret =
     (case createHMAC L cfg data secret of
        Inl e \<Rightarrow> Inl e
      | Inr expectedSignature \<Rightarrow>
          (case signature of
             None \<Rightarrow> Inl (TypeError ''The first argument must be of type string or an instance of Buffer'')
           | Some s \<Rightarrow> timingSafeEqual (hex_decode s) (hex_decode expectedSignature)))"

section \<open>AuditLogService\<close>

text \<open>A \<open>Date\<close> holds a time value in milliseconds, or is invalid.\<close>

datatype Date = Date int | Invalid_Date

text \<open>
  \<open>AuditLogInput\<close> is \<open>Omit<AuditLogEntry, 'id' | 'timestamp' | 'signature'>\<close>, the
  argument of \<open>logAction\<close>; \<open>AuditLogEntry\<close> adds the three fields.
\<close>

record AuditLogInput =
  userId :: string
  orgId :: string
  action :: string
  resourceType :: string
  resourceId :: string
  details :: jsvalue
  ipAddress :: string
  userAgent :: string

record AuditLogEntry = AuditLogInput +
  entryId :: "string option"
  timestamp :: Date
  signature :: "string option"

definition dateToISOString :: "platform \<Rightarrow> Date \<Rightarrow> error + string" where
  "dateToISOString L d =
     (case d of
        Date t \<Rightarrow> Inr (toISOString L t)
      | Invalid_Date \<Rightarrow> Inl (RangeError ''Invalid time value''))"

subsection \<open>The signed text\<close>

text \<open>
  \<open>JSON.stringify\<close> on the object of six strings, written out: a string is quoted, with
  the quote, the backslash and the control characters escaped as ECMAScript's
  \<open>QuoteJSONString\<close> does.
\<close>

definition dquote :: char where "dquote = CHR 0x22"
definition backslash :: char where "backslash = CHR 0x5C"

definition json_escape :: "char \<Rightarrow> string" where
  "json_escape c =
     (let n = (of_char c :: nat) in
      if c = dquote then [backslash, dquote]
      else if c = backslash then [backslash, backslash]
      else if n = 8 then [backslash, CHR ''b'']
      else if n = 9 then [backslash, CHR ''t'']
      else if n = 10 then [backslash, CHR ''n'']
      else if n = 12 then [backslash, CHR ''f'']
      else if n = 13 then [backslash, CHR ''r'']
      else if n < 32 then [backslash, CHR ''u'', CHR ''0'', CHR ''0'', hexDigit (n div 16), hexDigit (n mod 16)]
      else [c])"

fun json_escape_all :: "string \<Rightarrow> string" where
  "json_escape_all [] = []"
| "json_escape_all (c # cs) = json_escape c @ json_escape_all cs"

definition JSON_quote :: "string \<Rightarrow> string" where
  "JSON_quote s = dquote # json_escape_all s @ [dquote]"

definition json_member :: "string \<Rightarrow> string \<Rightarrow> string" where
  "json_member k v = JSON_quote k @ '':'' @ JSON_quote v"

definition stringifySigned ::
  "string \<Rightarrow> string \<Rightarrow> string \<Rightarrow> string \<Rightarrow> string \<Rightarrow> string \<Rightarrow> string" where
  "stringifySigned uid oid act rtype rid stamp =
     ''{'' @ json_member ''userId'' uid @ '','' @ json_member ''orgId'' oid @ '',''
       @ json_member ''action'' act @ '','' @ json_member ''resourceType'' rtype @ '',''
       @ json_member ''resourceId'' rid @ '','' @ json_member ''timestamp'' stamp @ ''}''"

subsection \<open>logAction\<close>

text \<open>\<open>details && Object.keys(details).length > 0\<close>\<close>

fun hasKeys :: "jsvalue \<Rightarrow> bool" where
  "hasKeys (JObject es) = (length es > 0)"
| "hasKeys (JString s) = (length s > 0)"
| "hasKeys v = False"

text \<open>
  The record \<open>logAction\<close> hands to \<open>storeAuditEntry\<close> (lines 31 to 55 of the source):
  \<open>now\<close> is the time value of \<open>new Date()\<close>, \<open>salt\<close> and \<open>iv\<close> the random bytes
  \<open>encrypt\<close> draws.
\<close>

definition logAction_entry ::
  "platform \<Rightarrow> config \<Rightarrow> int \<Rightarrow> buffer \<Rightarrow> buffer \<Rightarrow> AuditLogInput \<Rightarrow> error + AuditLogEntry" where
  "logAction_entry L cfg now salt iv entry =
     (let auditEntry = AuditLogInput.extend entry (AuditLogEntry.fields None (Date now) None)
      in case dateToISOString L (timestamp auditEntry) of
           Inl e \<Rightarrow> Inl e
         | Inr stamp \<Rightarrow>
             (let dataToSign = stringifySigned (userId auditEntry) (orgId auditEntry)
                    (action auditEntry) (resourceType auditEntry) (resourceId auditEntry) stamp
              in case createHMAC L cfg dataToSign None of
                   Inl e \<Rightarrow> Inl e
                 | Inr sig \<Rightarrow>
                     (let signed = auditEntry\<lparr>signature := Some sig\<rparr>
                      in if hasKeys (details signed) then
                           (case JSON_stringify L (details signed) of
                              Inl e \<Rightarrow> Inl e
                            | Inr json \<Rightarrow>
                                (case encrypt L cfg salt iv json (Some (orgId signed)) of
                                   Inl e \<Rightarrow> Inl e
                                 | Inr encryptedDetails \<Rightarrow>
                                     Inr (signed\<lparr>details := JObject [(''encrypted'', JString encryptedDetails)]\<rparr>)))
                         else Inr signed)))"

text \<open>
  The \<open>try\<close> block: build the record, then store it. The store is an argument, a function
  that may throw, so that a statement about \<open>logAction\<close> covers the source's placeholder
  (which prints the record) and any repository put in its place.
\<close>

definition logAction_try ::
  "platform \<Rightarrow> config \<Rightarrow> (AuditLogEntry \<Rightarrow> error + unit) \<Rightarrow> int \<Rightarrow> buffer \<Rightarrow> buffer
     \<Rightarrow> AuditLogInput \<Rightarrow> error + unit" where
  "logAction_try L cfg storeAuditEntry now salt iv entry =
     (case logAction_entry L cfg now salt iv entry of
        Inl e \<Rightarrow> Inl e
      | Inr auditEntry \<Rightarrow> storeAuditEntry auditEntry)"

text \<open>The \<open>catch\<close> prints the error and does not throw again.\<close>

definition logAction ::
  "platform \<Rightarrow> config \<Rightarrow> (AuditLogEntry \<Rightarrow> error + unit) \<Rightarrow> int \<Rightarrow> buffer \<Rightarrow> buffer
     \<Rightarrow> AuditLogInput \<Rightarrow> error + unit" where
  "logAction L cfg storeAuditEntry now salt iv entry =
     (case logAction_try L cfg storeAuditEntry now salt iv entry of
        Inl e \<Rightarrow> Inr ()
      | Inr u \<Rightarrow> Inr ())"

subsection \<open>verifyAuditEntry\<close>

definition verifyAuditEntry_try :: "platform \<Rightarrow> config \<Rightarrow> AuditLogEntry \<Rightarrow> error + bool" where
  "verifyAuditEntry_try L cfg entry =
     (case dateToISOString L (timestamp entry) of
        Inl e \<Rightarrow> Inl e
      | Inr stamp \<Rightarrow>
          verifyHMAC L cfg
            (stringifySigned (userId entry) (orgId entry) (action entry)
               (resourceType entry) (resourceId entry) stamp)
            (signature entry) None)"

definition verifyAuditEntry :: "platform \<Rightarrow> config \<Rightarrow> AuditLogEntry \<Rightarrow> bool" where
  "verifyAuditEntry L cfg entry =
     (case verifyAuditEntry_try L cfg entry of
        Inl e \<Rightarrow> False
      | Inr b \<Rightarrow> b)"

section \<open>Notions the statements use\<close>

text \<open>
  The rules that apply to a tenant and a data type when the classification carries no
  flag, read off the registry alone: the entries whose rule lists the data type and
  whose key is the tenant's key or is not a tenant key at all.
\<close>

definition applicableByType :: "registry \<Rightarrow> string \<Rightarrow> string \<Rightarrow> DataResidencyRule list" where
  "applicableByType m org dataType =
     map snd (filter (\<lambda>(key, rule). dataType \<in> set (dataTypes rule)
                        \<and> (key = ''ORG_'' @ org \<or> \<not> prefix ''ORG_'' key)) m)"

text \<open>A tenant rule with a retention period of one year, for the examples.\<close>

definition shortRule :: DataResidencyRule where
  "shortRule = \<lparr>ruleOrgId = ''org-1'', region = ''ORG'', dataTypes = [''trading''],
     restrictions = \<lparr>allowedRegions = [], prohibitedRegions = [],
       requiresEncryption = False, retentionPeriodDays = 365\<rparr>\<rparr>"

text \<open>
  A rule vetoes a target region when it prohibits it, or when it has allowed regions and
  the target is not among them. Its reason is the prohibition when it prohibits.
\<close>

definition vetoes :: "string \<Rightarrow> DataResidencyRule \<Rightarrow> bool" where
  "vetoes targetRegion rule =
     (targetRegion \<in> set (prohibitedRegions (restrictions rule))
      \<or> (allowedRegions (restrictions rule) \<noteq> []
          \<and> targetRegion \<notin> set (allowedRegions (restrictions rule))))"

definition vetoReason :: "string \<Rightarrow> DataResidencyRule \<Rightarrow> string" where
  "vetoReason targetRegion rule =
     (if targetRegion \<in> set (prohibitedRegions (restrictions rule))
      then prohibitedReason targetRegion rule
      else notAllowedReason targetRegion rule)"

text \<open>A payload with a financial field, and a diagnosis two levels down, inside an array.\<close>

definition patientRecord :: jsvalue where
  "patientRecord =
     JObject [(''balance'', JNumber 100),
              (''visits'', JObject [(''0'', JObject [(''Primary_DIAGNOSIS'', JString ''flu'')])])]"

subsection \<open>What the statements assume of the platform\<close>

text \<open>
  The cipher gives a tag of 16 bytes (the default of AES-GCM in Node) and its decipher,
  given the same key and associated data, the tag and the ciphertext, returns the
  plaintext.
\<close>

definition cipher_roundtrip :: "platform \<Rightarrow> bool" where
  "cipher_roundtrip L =
     (\<forall>key aad plaintext.
        length (snd (createCipher L algorithm key aad plaintext)) = 16
        \<and> createDecipher L algorithm key aad
              (snd (createCipher L algorithm key aad plaintext))
              (fst (createCipher L algorithm key aad plaintext)) = Inr plaintext)"

text \<open>
  Decoding undoes encoding, for UTF-8 and for base64. A string of the model is
  well-formed text; a lone surrogate, which the UTF-8 encoder replaces, is not among its
  characters.
\<close>

definition codecs_roundtrip :: "platform \<Rightarrow> bool" where
  "codecs_roundtrip L =
     ((\<forall>s. utf8_decode L (utf8_encode L s) = s)
      \<and> (\<forall>b. base64_decode L (base64_encode L b) = b))"

text \<open>
  The decipher rejects, under the associated data \<open>aad'\<close>, what the cipher sealed under
  \<open>aad\<close> with the same key: the authentication of the associated data, for one key,
  one plaintext and one pair of associated data.
\<close>

definition rejects_aad :: "platform \<Rightarrow> buffer \<Rightarrow> buffer \<Rightarrow> buffer \<Rightarrow> buffer \<Rightarrow> bool" where
  "rejects_aad L key aad aad' plaintext =
     isl (createDecipher L algorithm key aad'
            (snd (createCipher L algorithm key aad plaintext))
            (fst (createCipher L algorithm key aad plaintext)))"

text \<open>
  A small platform on which the statements are evaluated. Its cipher adds one to every
  byte and its tag is the first 16 bytes of the associated data and the key; its MAC is
  the first 32 bytes of the reversed data and the secret; base64 is played by the
  hexadecimal codec; a time value is printed as a sign and as many strokes.
\<close>

definition toy_tag :: "buffer \<Rightarrow> buffer \<Rightarrow> buffer" where
  "toy_tag key aad = take 16 (aad @ key @ replicate 16 0)"

definition toy_bytes :: "string \<Rightarrow> buffer" where
  "toy_bytes s = map (\<lambda>c. of_nat (of_char c)) s"

definition toy_chars :: "buffer \<Rightarrow> string" where
  "toy_chars b = map (\<lambda>x. char_of (unat x)) b"

definition toy_iso :: "int \<Rightarrow> string" where
  "toy_iso t = (if t < 0 then CHR ''-'' else CHR ''+'') # replicate (nat \<bar>t\<bar>) CHR ''I''"

definition toyPlatform :: platform where
  "toyPlatform =
     \<lparr>pbkdf2Sync = (\<lambda>password salt iterations keylen digest.
         take keylen (salt @ toy_bytes password @ replicate keylen 0)),
      createCipher = (\<lambda>alg key aad plaintext. (map (\<lambda>x. x + 1) plaintext, toy_tag key aad)),
      createDecipher = (\<lambda>alg key aad tag ciphertext.
         if tag = toy_tag key aad then Inr (map (\<lambda>x. x - 1) ciphertext)
         else Inl (Error ''Unsupported state or unable to authenticate data'')),
      createHmac = (\<lambda>alg secret data.
         take 32 (rev (toy_bytes data) @ toy_bytes secret @ replicate 32 0)),
      utf8_encode = toy_bytes,
      utf8_decode = toy_chars,
      base64_encode = hex_encode,
      base64_decode = hex_decode,
      toISOString = toy_iso,
      JSON_stringify = (\<lambda>v. Inr ''{}'')\<rparr>"

definition toyConfig :: config where
  "toyConfig = \<lparr>ENCRYPTION_MASTER_KEY = Some ''master'', HMAC_SECRET = Some ''hmac''\<rparr>"

definition toySalt :: buffer where
  "toySalt = [1, 2, 3, 4, 5, 6, 7, 8, 9, 10, 11, 12, 13, 14, 15, 16]"

definition toyIv :: buffer where
  "toyIv = [21, 22, 23, 24, 25, 26, 27, 28, 29, 30, 31, 32, 33, 34, 35, 36]"

text \<open>
  What the cipher yields in \<open>encrypt\<close>, for a master key, a salt, a plaintext and a
  tenant tag: the ciphertext and the tag.
\<close>

definition sealed :: "platform \<Rightarrow> string \<Rightarrow> buffer \<Rightarrow> string \<Rightarrow> string option \<Rightarrow> buffer \<times> buffer" where
  "sealed L masterKey salt plaintext org =
     createCipher L algorithm (pbkdf2Sync L masterKey salt 100000 keyLength ''sha256'')
       (utf8_encode L (orgTag org)) (utf8_encode L plaintext)"

text \<open>
  Reading one escaped character back from the front of a text: the inverse of
  \<open>json_escape\<close>, by which the signed text determines the six strings.
\<close>

fun unescape :: "string \<Rightarrow> (char \<times> string) option" where
  "unescape [] = None"
| "unescape (x # rest) =
     (if x \<noteq> backslash then Some (x, rest)
      else case rest of
        [] \<Rightarrow> None
      | y # rest' \<Rightarrow>
          if y = dquote then Some (dquote, rest')
          else if y = backslash then Some (backslash, rest')
          else if y = CHR ''b'' then Some (char_of (8::nat), rest')
          else if y = CHR ''t'' then Some (char_of (9::nat), rest')
          else if y = CHR ''n'' then Some (char_of (10::nat), rest')
          else if y = CHR ''f'' then Some (char_of (12::nat), rest')
          else if y = CHR ''r'' then Some (char_of (13::nat), rest')
          else (case rest' of
                  z0 # z1 # h1 # h2 # rest'' \<Rightarrow>
                    (case (hexVal h1, hexVal h2) of
                       (Some p, Some q) \<Rightarrow> Some (char_of (16 * p + q), rest'')
                     | _ \<Rightarrow> None)
                | _ \<Rightarrow> None))"

text \<open>The six signed fields of a record, and the text signed for it (none for an invalid date).\<close>

definition signedFields :: "AuditLogEntry \<Rightarrow> string \<times> string \<times> string \<times> string \<times> string \<times> Date" where
  "signedFields e = (userId e, orgId e, action e, resourceType e, resourceId e, timestamp e)"

definition signedText :: "platform \<Rightarrow> AuditLogEntry \<Rightarrow> string option" where
  "signedText L e =
     (case timestamp e of
        Date t \<Rightarrow> Some (stringifySigned (userId e) (orgId e) (action e) (resourceType e)
                          (resourceId e) (toISOString L t))
      | Invalid_Date \<Rightarrow> None)"

text \<open>
  The MAC tells the signed texts of two records apart: under the configured secret, two
  different texts do not have the same digest. It is assumed of the platform's HMAC for
  the pair of records at hand.
\<close>

definition hmac_separates :: "platform \<Rightarrow> config \<Rightarrow> AuditLogEntry \<Rightarrow> AuditLogEntry \<Rightarrow> bool" where
  "hmac_separates L cfg e e' =
     (case (truthy (HMAC_SECRET cfg), signedText L e, signedText L e') of
        (Some k, Some t, Some t') \<Rightarrow>
          t \<noteq> t' \<longrightarrow> createHmac L ''sha256'' k t \<noteq> createHmac L ''sha256'' k t'
      | _ \<Rightarrow> True)"

text \<open>An audit entry for the examples.\<close>

definition entry0 :: AuditLogInput where
  "entry0 = \<lparr>userId = ''u1'', orgId = ''org-A'', action = ''scenario.create'',
     resourceType = ''scenario'', resourceId = ''s1'', details = JObject [],
     ipAddress = ''10.0.0.1'', userAgent = ''cli''\<rparr>"

section \<open>Verified properties\<close>

subsection \<open>Retention\<close>

lemma matches_plain: "matchesClassification rule (Some (plainClassification dataType)) = Inr False"
  by (simp add: plainClassification_def)

lemma globalRules_plain:
  "globalRules m dataType (Some (plainClassification dataType)) =
     Inr (map snd (filter (\<lambda>(key, rule). \<not> prefix ''ORG_'' key \<and> dataType \<in> set (dataTypes rule)) m))"
proof (induction m)
  case Nil
  show ?case by simp
next
  case (Cons e m)
  obtain key rule where e: "e = (key, rule)" by (cases e)
  show ?case
    unfolding e by (simp add: Cons.IH matches_plain del: matchesClassification.simps)
qed

lemma Math_min_Min: "xs \<noteq> [] \<Longrightarrow> Math_min xs = Min (set xs)"
proof (cases xs)
  case Nil
  assume "xs \<noteq> []"
  with Nil show ?thesis by simp
next
  case (Cons x ys)
  have "Min (set (x # ys)) = fold min ys x" by (rule Min.set_eq_fold)
  with Cons show ?thesis by simp
qed

lemma set_orgRules:
  assumes "distinct (map fst m)"
  shows "set (orgRules m org dataType)
           = {rule. (''ORG_'' @ org, rule) \<in> set m \<and> dataType \<in> set (dataTypes rule)}"
proof (cases "map_of m (''ORG_'' @ org)")
  case None
  then have "\<And>rule. (''ORG_'' @ org, rule) \<notin> set m"
    by (metis map_of_eq_None_iff fst_conv image_eqI)
  with None show ?thesis by (simp add: orgRules_def map_get_def)
next
  case (Some r)
  have "\<And>rule. (''ORG_'' @ org, rule) \<in> set m \<longleftrightarrow> rule = r"
    using assms Some by (metis map_of_eq_Some_iff option.inject)
  with Some show ?thesis by (auto simp: orgRules_def map_get_def)
qed

lemma set_applicableByType:
  "set (applicableByType m org dataType)
     = {rule. \<exists>key. (key, rule) \<in> set m \<and> dataType \<in> set (dataTypes rule)
                \<and> (key = ''ORG_'' @ org \<or> \<not> prefix ''ORG_'' key)}"
  by (auto simp: applicableByType_def image_iff)

lemma getApplicableRules_plain:
  "getApplicableRules m org dataType (Some (plainClassification dataType)) =
     Inr (orgRules m org dataType
          @ map snd (filter (\<lambda>(key, rule). \<not> prefix ''ORG_'' key \<and> dataType \<in> set (dataTypes rule)) m))"
  by (simp add: getApplicableRules_def globalRules_plain)

lemma set_gathered:
  assumes "distinct (map fst m)"
  shows "set (orgRules m org dataType
          @ map snd (filter (\<lambda>(key, rule). \<not> prefix ''ORG_'' key \<and> dataType \<in> set (dataTypes rule)) m))
         = set (applicableByType m org dataType)"
  unfolding set_applicableByType set_append set_orgRules [OF assms]
  by (auto simp: image_iff)

text \<open>
  Claim C8. In a registry (its keys are distinct, as a \<open>Map\<close>'s are), for every tenant
  and data type, \<open>getRetentionPeriod\<close> returns, it does not throw, and its result is
  the least \<open>retentionPeriodDays\<close> among the rules that apply, or 2555 when none
  applies.
\<close>

theorem getRetentionPeriod_minimum:
  assumes "distinct (map fst m)"
  shows "getRetentionPeriod m org dataType =
       Inr (if applicableByType m org dataType = [] then 2555
            else Min (set (map (\<lambda>rule. retentionPeriodDays (restrictions rule))
                            (applicableByType m org dataType))))"
proof -
  let ?rules = "orgRules m org dataType
          @ map snd (filter (\<lambda>(key, rule). \<not> prefix ''ORG_'' key \<and> dataType \<in> set (dataTypes rule)) m)"
  have s: "set ?rules = set (applicableByType m org dataType)"
    by (rule set_gathered [OF assms])
  then have e: "?rules = [] \<longleftrightarrow> applicableByType m org dataType = []"
    by (metis set_empty)
  have g: "getRetentionPeriod m org dataType =
      Inr (if ?rules = [] then 2555
           else Min (set (map (\<lambda>rule. retentionPeriodDays (restrictions rule)) ?rules)))"
    unfolding getRetentionPeriod_def getApplicableRules_plain
    by (simp add: Math_min_Min del: Math_min.simps)
  have "set (map (\<lambda>rule. retentionPeriodDays (restrictions rule)) ?rules)
        = set (map (\<lambda>rule. retentionPeriodDays (restrictions rule)) (applicableByType m org dataType))"
    unfolding set_map s ..
  with g e show ?thesis by simp
qed

text \<open>
  The spec's example: a rule of 2555 days (the built-in financial-services rule) and a
  tenant rule of 365 days both apply to \<open>trading\<close> data, and the result is 365.
\<close>

theorem getRetentionPeriod_minimum_witness:
  "distinct (map fst (registerOrgRules initializeDefaultRules ''org-1'' shortRule))
   \<and> map (\<lambda>rule. retentionPeriodDays (restrictions rule))
        (applicableByType (registerOrgRules initializeDefaultRules ''org-1'' shortRule) ''org-1'' ''trading'')
       = [2555, 365]
   \<and> getRetentionPeriod (registerOrgRules initializeDefaultRules ''org-1'' shortRule) ''org-1'' ''trading''
       = Inr 365"
proof -
  let ?m = "registerOrgRules initializeDefaultRules ''org-1'' shortRule"
  have d: "distinct (map fst ?m)"
    by (simp add: registerOrgRules_def initializeDefaultRules_def)
  have a: "map (\<lambda>rule. retentionPeriodDays (restrictions rule)) (applicableByType ?m ''org-1'' ''trading'')
       = [2555, 365]"
    by (simp add: applicableByType_def registerOrgRules_def initializeDefaultRules_def
        EU_rule_def US_rule_def FINANCIAL_rule_def shortRule_def)
  have n: "applicableByType ?m ''org-1'' ''trading'' \<noteq> []"
    using a by auto
  from getRetentionPeriod_minimum [OF d, of "''org-1''" "''trading''"] d a n
  show ?thesis by simp
qed

text \<open>
  The hypothesis on the keys is an invariant of the registry: it holds at start and
  \<open>map_set\<close> keeps it.
\<close>

lemma keys_map_set:
  "map fst (map_set m k v) = (if k \<in> set (map fst m) then map fst m else map fst m @ [k])"
proof (induction m)
  case Nil
  show ?case by simp
next
  case (Cons e m)
  obtain k' v' where e: "e = (k', v')" by (cases e)
  show ?case unfolding e using Cons.IH by auto
qed

lemma distinct_map_set:
  "distinct (map fst m) \<Longrightarrow> distinct (map fst (map_set m k v))"
  by (simp add: keys_map_set)

lemma distinct_initial: "distinct (map fst initializeDefaultRules)"
  by (simp add: initializeDefaultRules_def)

lemma distinct_registerOrgRules:
  "distinct (map fst m) \<Longrightarrow> distinct (map fst (registerOrgRules m org rules))"
  unfolding registerOrgRules_def by (rule distinct_map_set)

lemma getRetentionPeriod_fallback:
  "getRetentionPeriod initializeDefaultRules ''org-1'' ''operational'' = Inr 2555"
  by (simp add: getRetentionPeriod_def getApplicableRules_def orgRules_def map_get_def
      initializeDefaultRules_def EU_rule_def US_rule_def FINANCIAL_rule_def plainClassification_def)

subsection \<open>The verdict\<close>

lemma checkRegions_find:
  "checkRegions rules t = map_option (\<lambda>r. deny (vetoReason t r)) (find (vetoes t) rules)"
  by (induction rules) (simp_all add: vetoes_def vetoReason_def)

lemma find_vetoes_Some:
  assumes "r \<in> set rules" and "t \<in> set (prohibitedRegions (restrictions r))"
  shows "\<exists>r'. find (vetoes t) rules = Some r'"
proof (cases "find (vetoes t) rules")
  case None
  then have "\<not> vetoes t r" using assms(1) by (simp add: find_None_iff)
  with assms(2) show ?thesis by (simp add: vetoes_def)
next
  case (Some r')
  then show ?thesis by simp
qed

lemmas registry_defs = getApplicableRules_def orgRules_def map_get_def
  initializeDefaultRules_def EU_rule_def US_rule_def FINANCIAL_rule_def plainClassification_def

text \<open>
  What \<open>getApplicableRules\<close> returns for a classification that is not null, read off
  the registry: first the tenant's rule when it lists the data type, then, in
  registration order, the rules under other than tenant keys that list the data type or
  a category the classification flags.
\<close>

lemma globalRules_typed:
  "globalRules m dataType (Some c) =
     Inr (map snd (filter (\<lambda>(key, rule). \<not> prefix ''ORG_'' key
            \<and> (dataType \<in> set (dataTypes rule)
                \<or> financialData c \<and> ''financial'' \<in> set (dataTypes rule)
                \<or> personalData c \<and> ''personal'' \<in> set (dataTypes rule)
                \<or> healthData c \<and> ''health'' \<in> set (dataTypes rule))) m))"
proof (induction m)
  case Nil
  show ?case by simp
next
  case (Cons e m)
  obtain key rule where e: "e = (key, rule)" by (cases e)
  show ?case unfolding e by (simp add: Cons.IH)
qed

lemma getApplicableRules_typed:
  "getApplicableRules m org dataType (Some c) =
     Inr ((case map_of m (''ORG_'' @ org) of
             None \<Rightarrow> []
           | Some rule \<Rightarrow> if dataType \<in> set (dataTypes rule) then [rule] else [])
          @ map snd (filter (\<lambda>(key, rule). \<not> prefix ''ORG_'' key
            \<and> (dataType \<in> set (dataTypes rule)
                \<or> financialData c \<and> ''financial'' \<in> set (dataTypes rule)
                \<or> personalData c \<and> ''personal'' \<in> set (dataTypes rule)
                \<or> healthData c \<and> ''health'' \<in> set (dataTypes rule))) m))"
  by (simp add: getApplicableRules_def globalRules_typed orgRules_def map_get_def)

text \<open>
  Claim C6 as stated fails. With the built-in rules, financial data and target \<open>IR\<close>, the
  rules that apply are the EU, US and financial-services rules, in this order. The US
  rule prohibits \<open>IR\<close>, yet the verdict carries the reason of the EU rule, which comes
  first and does not list \<open>IR\<close> among its allowed regions; it is no rule's prohibition.
\<close>

theorem validateDataOperation_reason_counterexample:
  "getApplicableRules initializeDefaultRules ''org-1'' ''financial''
       (Some (plainClassification ''financial'')) = Inr [EU_rule, US_rule, FINANCIAL_rule]
   \<and> ''IR'' \<in> set (prohibitedRegions (restrictions US_rule))
   \<and> validateDataOperation initializeDefaultRules ''org-1'' ''financial'' Transfer ''IR''
       (Some (plainClassification ''financial''))
       = \<lparr>allowed = False,
          reason = Some ''Data transfer to IR is not in allowed regions: EU, EEA'',
          requirements = []\<rparr>
   \<and> prohibitedReason ''IR'' EU_rule \<noteq> ''Data transfer to IR is not in allowed regions: EU, EEA''
   \<and> prohibitedReason ''IR'' US_rule \<noteq> ''Data transfer to IR is not in allowed regions: EU, EEA''
   \<and> prohibitedReason ''IR'' FINANCIAL_rule \<noteq> ''Data transfer to IR is not in allowed regions: EU, EEA''"
  by (simp add: registry_defs validateDataOperation_def validate_try_def deny_def
      prohibitedReason_def notAllowedReason_def)

text \<open>
  Claim C6, amended. When a rule that applies prohibits the target region, the verdict
  is a denial with no requirements, and its reason is that of the first rule, in the
  order \<open>getApplicableRules\<close> returns them, that vetoes the target: the prohibition when
  that rule prohibits the target, its allowed-region restriction otherwise.
\<close>

theorem validateDataOperation_first_veto:
  assumes "getApplicableRules m org dataType classification = Inr rules"
    and "r \<in> set rules"
    and "targetRegion \<in> set (prohibitedRegions (restrictions r))"
  shows "\<exists>r'. find (vetoes targetRegion) rules = Some r'
           \<and> validateDataOperation m org dataType operation targetRegion classification
               = \<lparr>allowed = False, reason = Some (vetoReason targetRegion r'), requirements = []\<rparr>"
proof -
  obtain r' where f: "find (vetoes targetRegion) rules = Some r'"
    using find_vetoes_Some [OF assms(2) assms(3)] by blast
  have "validateDataOperation m org dataType operation targetRegion classification
          = deny (vetoReason targetRegion r')"
    by (simp add: validateDataOperation_def validate_try_def assms(1) checkRegions_find f)
  with f show ?thesis by (simp add: deny_def)
qed

theorem validateDataOperation_first_veto_witness:
  "find (vetoes ''IR'') [EU_rule, US_rule, FINANCIAL_rule] = Some EU_rule
   \<and> validateDataOperation initializeDefaultRules ''org-1'' ''financial'' Transfer ''IR''
       (Some (plainClassification ''financial''))
       = \<lparr>allowed = False, reason = Some (vetoReason ''IR'' EU_rule), requirements = []\<rparr>"
proof -
  have a: "getApplicableRules initializeDefaultRules ''org-1'' ''financial''
       (Some (plainClassification ''financial'')) = Inr [EU_rule, US_rule, FINANCIAL_rule]"
    by (simp add: registry_defs)
  have b: "US_rule \<in> set [EU_rule, US_rule, FINANCIAL_rule]" by simp
  have c: "''IR'' \<in> set (prohibitedRegions (restrictions US_rule))" by (simp add: US_rule_def)
  have d: "find (vetoes ''IR'') [EU_rule, US_rule, FINANCIAL_rule] = Some EU_rule"
    by (simp add: vetoes_def EU_rule_def)
  from validateDataOperation_first_veto [OF a b c, of Transfer] d show ?thesis by simp
qed

text \<open>
  Claim C10. When gathering the rules or applying them throws, \<open>validateDataOperation\<close>
  returns the fixed denial; an exception never becomes an allow verdict.
\<close>

theorem validateDataOperation_fail_closed:
  assumes "validate_try m org dataType operation targetRegion classification = Inl e"
  shows "validateDataOperation m org dataType operation targetRegion classification
           = \<lparr>allowed = False, reason = Some ''Data residency validation failed'', requirements = []\<rparr>"
  using assms by (simp add: validateDataOperation_def deny_def)

theorem validateDataOperation_fail_closed_witness:
  "validate_try initializeDefaultRules ''org-1'' ''trading'' Store ''US'' None
      = Inl (null_read ''financialData'')
   \<and> validateDataOperation initializeDefaultRules ''org-1'' ''trading'' Store ''US'' None
      = \<lparr>allowed = False, reason = Some ''Data residency validation failed'', requirements = []\<rparr>"
proof -
  have a: "validate_try initializeDefaultRules ''org-1'' ''trading'' Store ''US'' None
      = Inl (null_read ''financialData'')"
    by (simp add: registry_defs validate_try_def)
  from validateDataOperation_fail_closed [OF a] a show ?thesis by simp
qed

subsection \<open>Classification\<close>

lemma str_includes_iff: "str_includes s t \<longleftrightarrow> (\<exists>pre post. s = pre @ t @ post)"
proof (induction s)
  case Nil
  show ?case by auto
next
  case (Cons c cs)
  show ?case
  proof
    assume "str_includes (c # cs) t"
    then consider "prefix t (c # cs)" | "str_includes cs t" by auto
    then show "\<exists>pre post. c # cs = pre @ t @ post"
    proof cases
      case 1
      then obtain post where "c # cs = t @ post" by (auto simp: prefix_def)
      then have "c # cs = [] @ t @ post" by simp
      then show ?thesis by blast
    next
      case 2
      then obtain pre post where "cs = pre @ t @ post" using Cons.IH by blast
      then have "c # cs = (c # pre) @ t @ post" by simp
      then show ?thesis by blast
    qed
  next
    assume "\<exists>pre post. c # cs = pre @ t @ post"
    then obtain pre post where e: "c # cs = pre @ t @ post" by blast
    show "str_includes (c # cs) t"
    proof (cases pre)
      case Nil
      with e have "prefix t (c # cs)" by (simp add: prefix_def)
      then show ?thesis by simp
    next
      case (Cons p ps)
      with e have "cs = ps @ t @ post" by simp
      then have "str_includes cs t" using Cons.IH by blast
      then show ?thesis by simp
    qed
  qed
qed

lemma hasField_fieldNames:
  "hasField v f \<longleftrightarrow> (\<exists>k \<in> set (fieldNames v). str_includes (toLowerCase k) (toLowerCase f))"
  "hasField_entries es f \<longleftrightarrow> (\<exists>k \<in> set (fieldNames_entries es). str_includes (toLowerCase k) (toLowerCase f))"
proof (induction v f and es f rule: hasField_hasField_entries.induct)
  case (8 key val es field)
  show ?case
  proof (cases val)
    case (JObject x)
    then show ?thesis using 8 by auto
  qed (use 8 in auto)
qed simp_all

lemma anyField_iff: "anyField data fs \<longleftrightarrow> (\<exists>f \<in> set fs. hasField data f)"
  by (induction fs) auto

lemma toLowerCase_diagnosis: "toLowerCase ''diagnosis'' = ''diagnosis''"
  by (simp add: toLowerCase_def toLowerChar_def)

text \<open>
  Claim C7. A payload that has, at any depth, a field whose lower-cased name contains
  \<open>diagnosis\<close> is classified \<open>restricted\<close> with \<open>healthData\<close> set, whatever else it
  contains: the health check runs after the personal and financial checks and
  overwrites their level, and the security check raises the level only from
  \<open>internal\<close>.
\<close>

theorem classifyData_diagnosis:
  assumes "k \<in> set (fieldNames data)" and "str_includes (toLowerCase k) ''diagnosis''"
  shows "level (classifyData data) = Restricted \<and> healthData (classifyData data) = True"
proof -
  have "hasField data ''diagnosis''"
    using assms by (auto simp: hasField_fieldNames(1) toLowerCase_diagnosis)
  then have h: "anyField data healthFields"
    by (auto simp: anyField_iff healthFields_def)
  show ?thesis
    by (simp add: classifyData_def Let_def h)
qed

theorem classifyData_diagnosis_witness:
  "''Primary_DIAGNOSIS'' \<in> set (fieldNames patientRecord)
   \<and> str_includes (toLowerCase ''Primary_DIAGNOSIS'') ''diagnosis''
   \<and> financialData (classifyData patientRecord) = True
   \<and> level (classifyData patientRecord) = Restricted
   \<and> healthData (classifyData patientRecord) = True"
proof -
  have a: "''Primary_DIAGNOSIS'' \<in> set (fieldNames patientRecord)"
    by (simp add: patientRecord_def)
  have b: "str_includes (toLowerCase ''Primary_DIAGNOSIS'') ''diagnosis''"
    by code_simp
  have c: "financialData (classifyData patientRecord) = True"
    by code_simp
  from classifyData_diagnosis [OF a b] a b c show ?thesis by simp
qed

subsection \<open>Audit isolation\<close>

text \<open>
  Claim C4. For every entry, every platform (whatever its signer, cipher and serialiser
  do, throwing included), every configuration and every store, \<open>logAction\<close> returns
  normally.
\<close>

theorem logAction_never_throws:
  "logAction L cfg storeAuditEntry now salt iv entry = Inr ()"
  by (simp add: logAction_def split: sum.split)

subsection \<open>Encryption\<close>

lemma hexVal_hexDigit: "n < 16 \<Longrightarrow> hexVal (hexDigit n) = Some n"
  by (auto simp: hexVal_def hexDigit_def Let_def)

lemma unat_byte_div: "unat (b :: byte) div 16 < 16"
proof -
  have "unat b < 256" using unsigned_less [of b, where ?'a = nat] by simp
  then show ?thesis by simp
qed

lemma hex_decode_encode: "hex_decode (hex_encode bs) = bs"
proof (induction bs)
  case Nil
  show ?case by simp
next
  case (Cons b bs)
  have hi: "hexVal (hexDigit (unat b div 16)) = Some (unat b div 16)"
    by (rule hexVal_hexDigit) (rule unat_byte_div)
  have lo: "hexVal (hexDigit (unat b mod 16)) = Some (unat b mod 16)"
    by (rule hexVal_hexDigit) simp
  show ?case by (simp add: hi lo Cons.IH)
qed

lemma encrypt_blob:
  assumes "truthy (ENCRYPTION_MASTER_KEY cfg) = Some mk"
  shows "encrypt L cfg salt iv P T =
           Inr (base64_encode L (salt @ iv @ snd (sealed L mk salt P T) @ fst (sealed L mk salt P T)))"
  by (simp add: encrypt_def encrypt_try_def deriveKey_def assms sealed_def
      hex_decode_encode split: prod.split)

lemma decrypt_unpack:
  assumes "codecs_roundtrip L" and "truthy (ENCRYPTION_MASTER_KEY cfg) = Some mk"
    and "length salt = 16" and "length iv = 16" and "length tag = 16"
  shows "decrypt_try L cfg (base64_encode L (salt @ iv @ tag @ ct)) T =
           (case createDecipher L algorithm (pbkdf2Sync L mk salt 100000 keyLength ''sha256'')
                   (utf8_encode L (orgTag T)) tag ct of
              Inl e \<Rightarrow> Inl e
            | Inr d \<Rightarrow> Inr (utf8_decode L d))"
proof -
  have b: "base64_decode L (base64_encode L (salt @ iv @ tag @ ct)) = salt @ iv @ tag @ ct"
    using assms(1) by (simp add: codecs_roundtrip_def)
  show ?thesis
    by (simp add: decrypt_try_def b subarray_def ivLength_def tagLength_def deriveKey_def assms)
qed



lemma toy_cipher_roundtrip: "cipher_roundtrip toyPlatform"
  by (auto simp: cipher_roundtrip_def toyPlatform_def toy_tag_def comp_def min_def)

lemma toy_chars_bytes: "toy_chars (toy_bytes s) = s"
proof -
  have "char_of (unat (of_nat (of_char c) :: byte)) = c" for c :: char
  proof -
    have "(of_char c :: nat) < 256" by simp
    then have "unat (of_nat (of_char c) :: byte) = of_char c"
      by (simp add: unat_of_nat)
    then show ?thesis by simp
  qed
  then show ?thesis by (simp add: toy_chars_def toy_bytes_def comp_def)
qed

lemma toy_codecs_roundtrip: "codecs_roundtrip toyPlatform"
  by (simp add: codecs_roundtrip_def toyPlatform_def toy_chars_bytes hex_decode_encode)

lemma toy_master: "truthy (ENCRYPTION_MASTER_KEY toyConfig) \<noteq> None"
  by (simp add: toyConfig_def)


lemma list_update_iv:
  assumes "length salt = 16" and "16 \<le> i" and "i < 32" and "length iv = 16"
  shows "(salt @ iv @ rest)[i := b] = salt @ iv[i - 16 := b] @ rest"
proof -
  have "i - 16 < 16" using assms(2) assms(3) by arith
  moreover have "\<not> i < 16" using assms(2) by arith
  ultimately show ?thesis using assms(1) assms(4) by (simp add: list_update_append)
qed

text \<open>
  Claim C2 fails for the bytes 16 to 31 of the blob. \<open>encrypt\<close> draws a vector and packs
  it, \<open>decrypt\<close> slices it out, and neither hands it to the cipher
  (\<open>createCipher\<close> and \<open>createDecipher\<close> take none): whatever byte is written there,
  \<open>decrypt\<close> returns the plaintext.
\<close>

theorem decrypt_ignores_iv:
  assumes "cipher_roundtrip L" and "codecs_roundtrip L"
    and "truthy (ENCRYPTION_MASTER_KEY cfg) \<noteq> None"
    and "length salt = 16" and "length iv = 16"
    and "encrypt L cfg salt iv P T = Inr blob"
    and "16 \<le> i" and "i < 32"
  shows "decrypt L cfg (base64_encode L ((base64_decode L blob)[i := b])) T = Inr P"
proof -
  obtain mk where mk: "truthy (ENCRYPTION_MASTER_KEY cfg) = Some mk"
    using assms(3) by blast
  let ?c = "sealed L mk salt P T"
  have blob: "blob = base64_encode L (salt @ iv @ snd ?c @ fst ?c)"
    using assms(6) by (simp add: encrypt_blob [OF mk])
  have raw: "base64_decode L blob = salt @ iv @ snd ?c @ fst ?c"
    using assms(2) by (simp add: blob codecs_roundtrip_def)
  have upd: "(base64_decode L blob)[i := b] = salt @ iv[i - 16 := b] @ snd ?c @ fst ?c"
    unfolding raw by (rule list_update_iv [OF assms(4) assms(7) assms(8) assms(5)])
  have len: "length (snd ?c) = 16"
    using assms(1) by (simp add: cipher_roundtrip_def sealed_def)
  have liv: "length (iv[i - 16 := b]) = 16" using assms(5) by simp
  have dec: "createDecipher L algorithm (pbkdf2Sync L mk salt 100000 keyLength ''sha256'')
               (utf8_encode L (orgTag T)) (snd ?c) (fst ?c) = Inr (utf8_encode L P)"
    using assms(1) by (simp add: cipher_roundtrip_def sealed_def)
  have utf: "utf8_decode L (utf8_encode L P) = P"
    using assms(2) by (simp add: codecs_roundtrip_def)
  show ?thesis
    unfolding upd
    by (simp add: decrypt_def decrypt_unpack [OF assms(2) mk assms(4) liv len] dec utf)
qed

lemma toy_master_key: "truthy (ENCRYPTION_MASTER_KEY toyConfig) = Some ''master''"
  by (simp add: toyConfig_def)

theorem decrypt_ignores_iv_witness:
  "\<exists>blob. encrypt toyPlatform toyConfig toySalt toyIv ''secret'' (Some ''org-A'') = Inr blob
      \<and> base64_decode toyPlatform blob ! 16 = 21
      \<and> decrypt toyPlatform toyConfig
            (base64_encode toyPlatform ((base64_decode toyPlatform blob)[16 := 255]))
            (Some ''org-A'') = Inr ''secret''"
proof -
  let ?c = "sealed toyPlatform ''master'' toySalt ''secret'' (Some ''org-A'')"
  let ?blob = "base64_encode toyPlatform (toySalt @ toyIv @ snd ?c @ fst ?c)"
  have s: "length toySalt = 16" by (simp add: toySalt_def)
  have i: "length toyIv = 16" by (simp add: toyIv_def)
  have a: "(16::nat) \<le> 16" by simp
  have b: "(16::nat) < 32" by simp
  have enc: "encrypt toyPlatform toyConfig toySalt toyIv ''secret'' (Some ''org-A'') = Inr ?blob"
    by (rule encrypt_blob [OF toy_master_key])
  have raw: "base64_decode toyPlatform ?blob = toySalt @ toyIv @ snd ?c @ fst ?c"
    using toy_codecs_roundtrip by (simp add: codecs_roundtrip_def)
  have old: "base64_decode toyPlatform ?blob ! 16 = 21"
    unfolding raw by (simp add: toySalt_def toyIv_def)
  from decrypt_ignores_iv [OF toy_cipher_roundtrip toy_codecs_roundtrip toy_master s i enc a b, of 255]
    enc old
  show ?thesis by blast
qed

text \<open>
  Claim C3. A blob made for one tenant, here \<open>org-A\<close>, and opened for another, here
  \<open>org-B\<close>: \<open>decrypt\<close> derives the key \<open>encrypt\<close> used (the salt is in the blob) and
  hands the other tenant's tag to the decipher as associated data, so when the decipher
  authenticates the associated data, that is rejects this input, \<open>decrypt\<close> throws an
  error whose message starts with \<open>Decryption failed\<close>.
\<close>

theorem decrypt_other_tenant:
  assumes "cipher_roundtrip L" and "codecs_roundtrip L"
    and "truthy (ENCRYPTION_MASTER_KEY cfg) = Some mk"
    and "length salt = 16" and "length iv = 16"
    and "rejects_aad L (pbkdf2Sync L mk salt 100000 keyLength ''sha256'')
           (utf8_encode L ''org-A'') (utf8_encode L ''org-B'') (utf8_encode L P)"
  shows "\<exists>blob msg. encrypt L cfg salt iv P (Some ''org-A'') = Inr blob
           \<and> deriveKey L cfg (subarray (base64_decode L blob) 0 16) = deriveKey L cfg salt
           \<and> decrypt L cfg blob (Some ''org-B'') = Inl (Error (''Decryption failed: '' @ msg))"
proof -
  let ?c = "sealed L mk salt P (Some ''org-A'')"
  let ?blob = "base64_encode L (salt @ iv @ snd ?c @ fst ?c)"
  have enc: "encrypt L cfg salt iv P (Some ''org-A'') = Inr ?blob"
    by (rule encrypt_blob [OF assms(3)])
  have raw: "base64_decode L ?blob = salt @ iv @ snd ?c @ fst ?c"
    using assms(2) by (simp add: codecs_roundtrip_def)
  have key: "deriveKey L cfg (subarray (base64_decode L ?blob) 0 16) = deriveKey L cfg salt"
    unfolding raw using assms(4) by (simp add: subarray_def)
  have len: "length (snd ?c) = 16"
    using assms(1) by (simp add: cipher_roundtrip_def sealed_def)
  have "isl (createDecipher L algorithm (pbkdf2Sync L mk salt 100000 keyLength ''sha256'')
               (utf8_encode L (orgTag (Some ''org-B''))) (snd ?c) (fst ?c))"
    using assms(6) by (simp add: rejects_aad_def sealed_def orgTag_def)
  then obtain e where rej:
    "createDecipher L algorithm (pbkdf2Sync L mk salt 100000 keyLength ''sha256'')
       (utf8_encode L (orgTag (Some ''org-B''))) (snd ?c) (fst ?c) = Inl e"
    by (auto simp: isl_def)
  have dec: "decrypt L cfg ?blob (Some ''org-B'') = Inl (Error (''Decryption failed: '' @ message e))"
    by (simp add: decrypt_def decrypt_unpack [OF assms(2) assms(3) assms(4) assms(5) len] rej)
  from enc key dec show ?thesis by blast
qed

lemma toy_tags_differ: "toy_tag key (toy_bytes ''org-A'') \<noteq> toy_tag key (toy_bytes ''org-B'')"
proof
  assume "toy_tag key (toy_bytes ''org-A'') = toy_tag key (toy_bytes ''org-B'')"
  then have "toy_tag key (toy_bytes ''org-A'') ! 4 = toy_tag key (toy_bytes ''org-B'') ! 4"
    by simp
  then show False by (simp add: toy_tag_def toy_bytes_def)
qed

theorem decrypt_other_tenant_witness:
  "\<exists>blob msg. encrypt toyPlatform toyConfig toySalt toyIv ''secret'' (Some ''org-A'') = Inr blob
      \<and> deriveKey toyPlatform toyConfig (subarray (base64_decode toyPlatform blob) 0 16)
          = deriveKey toyPlatform toyConfig toySalt
      \<and> decrypt toyPlatform toyConfig blob (Some ''org-B'')
          = Inl (Error (''Decryption failed: '' @ msg))"
proof -
  have s: "length toySalt = 16" by (simp add: toySalt_def)
  have i: "length toyIv = 16" by (simp add: toyIv_def)
  have r: "rejects_aad toyPlatform (pbkdf2Sync toyPlatform ''master'' toySalt 100000 keyLength ''sha256'')
             (utf8_encode toyPlatform ''org-A'') (utf8_encode toyPlatform ''org-B'')
             (utf8_encode toyPlatform ''secret'')"
    by (simp add: rejects_aad_def toyPlatform_def toy_tags_differ)
  show ?thesis
    by (rule decrypt_other_tenant [OF toy_cipher_roundtrip toy_codecs_roundtrip toy_master_key s i r])
qed

subsection \<open>Message authentication codes\<close>

text \<open>
  Claim C9 fails where it says that \<open>verifyHMAC\<close> returns for a signature of another
  length. The digest has 32 bytes; when the signature decodes to any other number of
  bytes, \<open>timingSafeEqual\<close> throws and \<open>verifyHMAC\<close> does not catch.
\<close>

theorem verifyHMAC_length_mismatch:
  assumes "truthy (HMAC_SECRET cfg) = Some k"
    and "length (createHmac L ''sha256'' k data) = 32"
    and "length (hex_decode s) \<noteq> 32"
  shows "verifyHMAC L cfg data (Some s) None
           = Inl (RangeError ''Input buffers must have the same byte length'')"
  using assms
  by (simp add: verifyHMAC_def createHMAC_def timingSafeEqual_def hex_decode_encode)

lemma hex_decode_abcd: "hex_decode ''abcd'' = [171, 205]"
  by (simp add: hexVal_def Let_def)

theorem verifyHMAC_length_mismatch_witness:
  "length (hex_decode ''abcd'') = 2
   \<and> verifyHMAC toyPlatform toyConfig ''data'' (Some ''abcd'') None
       = Inl (RangeError ''Input buffers must have the same byte length'')"
proof -
  have k: "truthy (HMAC_SECRET toyConfig) = Some ''hmac''" by (simp add: toyConfig_def)
  have l: "length (createHmac toyPlatform ''sha256'' ''hmac'' ''data'') = 32"
    by (simp add: toyPlatform_def toy_bytes_def)
  have d: "length (hex_decode ''abcd'') = 2" by (subst hex_decode_abcd) simp
  then have n: "length (hex_decode ''abcd'') \<noteq> 32" by simp
  from verifyHMAC_length_mismatch [OF k l n] d show ?thesis by simp
qed

subsection \<open>The signed text determines the signed fields\<close>

lemma dquote_code: "c = dquote \<longleftrightarrow> (of_char c :: nat) = 34"
proof -
  have "(of_char dquote :: nat) = 34" by (simp add: dquote_def)
  then show ?thesis by (metis of_char_eq_iff)
qed

lemma backslash_code: "c = backslash \<longleftrightarrow> (of_char c :: nat) = 92"
proof -
  have "(of_char backslash :: nat) = 92" by (simp add: backslash_def)
  then show ?thesis by (metis of_char_eq_iff)
qed

lemma char_by_code:
  assumes "(of_char c :: nat) = n"
  shows "c = char_of n"
proof -
  have "char_of (of_char c :: nat) = c" by (rule char_of_char)
  then show ?thesis unfolding assms by (rule sym)
qed

lemma letters_not_special:
  "CHR ''b'' \<noteq> dquote" "CHR ''b'' \<noteq> backslash"
  "CHR ''t'' \<noteq> dquote" "CHR ''t'' \<noteq> backslash"
  "CHR ''n'' \<noteq> dquote" "CHR ''n'' \<noteq> backslash"
  "CHR ''f'' \<noteq> dquote" "CHR ''f'' \<noteq> backslash"
  "CHR ''r'' \<noteq> dquote" "CHR ''r'' \<noteq> backslash"
  "CHR ''u'' \<noteq> dquote" "CHR ''u'' \<noteq> backslash"
  "dquote \<noteq> backslash"
  by (simp_all add: dquote_def backslash_def)

lemma unescape_escape: "unescape (json_escape c @ r) = Some (c, r)"
proof -
  let ?n = "of_char c :: nat"
  consider (q) "?n = 34" | (b) "?n = 92" | (c8) "?n = 8" | (c9) "?n = 9" | (c10) "?n = 10"
    | (c12) "?n = 12" | (c13) "?n = 13"
    | (ctl) "?n < 32" "?n \<noteq> 8" "?n \<noteq> 9" "?n \<noteq> 10" "?n \<noteq> 12" "?n \<noteq> 13"
    | (reg) "32 \<le> ?n" "?n \<noteq> 34" "?n \<noteq> 92"
    by linarith
  then show ?thesis
  proof cases
    case q
    then have "c = dquote" by (simp add: dquote_code)
    then show ?thesis by (simp add: json_escape_def letters_not_special)
  next
    case b
    then have "c = backslash" "c \<noteq> dquote" by (simp_all add: backslash_code dquote_code)
    then show ?thesis by (simp add: json_escape_def letters_not_special)
  next
    case c8
    then have ne: "c \<noteq> backslash" "c \<noteq> dquote" by (simp_all add: backslash_code dquote_code)
    have esc: "json_escape c = [backslash, CHR ''b'']"
      using c8 ne by (simp add: json_escape_def Let_def)
    have "c = char_of (8::nat)" by (rule char_by_code [OF c8])
    then show ?thesis unfolding esc by (simp add: letters_not_special)
  next
    case c9
    then have ne: "c \<noteq> backslash" "c \<noteq> dquote" by (simp_all add: backslash_code dquote_code)
    have esc: "json_escape c = [backslash, CHR ''t'']"
      using c9 ne by (simp add: json_escape_def Let_def)
    have "c = char_of (9::nat)" by (rule char_by_code [OF c9])
    then show ?thesis unfolding esc by (simp add: letters_not_special)
  next
    case c10
    then have ne: "c \<noteq> backslash" "c \<noteq> dquote" by (simp_all add: backslash_code dquote_code)
    have esc: "json_escape c = [backslash, CHR ''n'']"
      using c10 ne by (simp add: json_escape_def Let_def)
    have "c = char_of (10::nat)" by (rule char_by_code [OF c10])
    then show ?thesis unfolding esc by (simp add: letters_not_special)
  next
    case c12
    then have ne: "c \<noteq> backslash" "c \<noteq> dquote" by (simp_all add: backslash_code dquote_code)
    have esc: "json_escape c = [backslash, CHR ''f'']"
      using c12 ne by (simp add: json_escape_def Let_def)
    have "c = char_of (12::nat)" by (rule char_by_code [OF c12])
    then show ?thesis unfolding esc by (simp add: letters_not_special)
  next
    case c13
    then have ne: "c \<noteq> backslash" "c \<noteq> dquote" by (simp_all add: backslash_code dquote_code)
    have esc: "json_escape c = [backslash, CHR ''r'']"
      using c13 ne by (simp add: json_escape_def Let_def)
    have "c = char_of (13::nat)" by (rule char_by_code [OF c13])
    then show ?thesis unfolding esc by (simp add: letters_not_special)
  next
    case ctl
    then have ne: "c \<noteq> backslash" "c \<noteq> dquote"
      by (simp_all add: backslash_code dquote_code)
    have hi: "hexVal (hexDigit (?n div 16)) = Some (?n div 16)"
    proof (rule hexVal_hexDigit)
      show "?n div 16 < 16" using ctl(1) by simp
    qed
    have lo: "hexVal (hexDigit (?n mod 16)) = Some (?n mod 16)"
      by (rule hexVal_hexDigit) simp
    have esc: "json_escape c = [backslash, CHR ''u'', CHR ''0'', CHR ''0'',
        hexDigit (?n div 16), hexDigit (?n mod 16)]"
      using ctl ne by (simp add: json_escape_def Let_def)
    have whole: "char_of (16 * (?n div 16) + ?n mod 16) = c" by simp
    show ?thesis
      unfolding esc by (simp add: letters_not_special hi lo whole del: of_char_mod_256)
  next
    case reg
    then have ne: "c \<noteq> backslash" "c \<noteq> dquote"
      by (simp_all add: backslash_code dquote_code)
    have esc: "json_escape c = [c]"
      using reg ne by (simp add: json_escape_def Let_def)
    show ?thesis unfolding esc using ne by simp
  qed
qed

lemma json_escape_not_quote: "json_escape c @ x \<noteq> dquote # r"
proof
  assume e: "json_escape c @ x = dquote # r"
  have "unescape (dquote # r) = Some (dquote, r)"
    by (simp add: letters_not_special)
  with e have "unescape (json_escape c @ x) = Some (dquote, r)" by simp
  then have "c = dquote" by (simp add: unescape_escape)
  with e show False using letters_not_special(13) by (auto simp: json_escape_def)
qed

lemma json_escape_all_inj:
  "json_escape_all a @ dquote # r = json_escape_all b @ dquote # r' \<Longrightarrow> a = b \<and> r = r'"
proof (induction a arbitrary: b)
  case Nil
  show ?case
  proof (cases b)
    case Nil
    with Nil.prems show ?thesis by simp
  next
    case (Cons y ys)
    with Nil.prems have "json_escape y @ (json_escape_all ys @ dquote # r') = dquote # r"
      by simp
    then show ?thesis using json_escape_not_quote by blast
  qed
next
  case (Cons x xs)
  show ?case
  proof (cases b)
    case Nil
    with Cons.prems have "json_escape x @ (json_escape_all xs @ dquote # r) = dquote # r'"
      by simp
    then show ?thesis using json_escape_not_quote by blast
  next
    case (Cons y ys)
    with Cons.prems have e: "json_escape x @ (json_escape_all xs @ dquote # r)
        = json_escape y @ (json_escape_all ys @ dquote # r')"
      by simp
    then have "unescape (json_escape x @ (json_escape_all xs @ dquote # r))
        = unescape (json_escape y @ (json_escape_all ys @ dquote # r'))"
      by simp
    then have "x = y" and "json_escape_all xs @ dquote # r = json_escape_all ys @ dquote # r'"
      by (simp_all add: unescape_escape)
    with Cons.IH [of ys] Cons show ?thesis by simp
  qed
qed

lemma JSON_quote_inj: "JSON_quote a @ r = JSON_quote b @ r' \<Longrightarrow> a = b \<and> r = r'"
  using json_escape_all_inj [of a r b r'] by (simp add: JSON_quote_def)

lemma json_member_inj: "json_member k a @ r = json_member k b @ r' \<Longrightarrow> a = b \<and> r = r'"
  using JSON_quote_inj [of a r b r'] by (simp add: json_member_def)

lemma stringifySigned_inj:
  assumes "stringifySigned a1 a2 a3 a4 a5 a6 = stringifySigned b1 b2 b3 b4 b5 b6"
  shows "a1 = b1 \<and> a2 = b2 \<and> a3 = b3 \<and> a4 = b4 \<and> a5 = b5 \<and> a6 = b6"
proof -
  let ?t = "\<lambda>x6. json_member ''timestamp'' x6 @ ''}''"
  let ?r5 = "\<lambda>x5 x6. json_member ''resourceId'' x5 @ '','' @ ?t x6"
  let ?r4 = "\<lambda>x4 x5 x6. json_member ''resourceType'' x4 @ '','' @ ?r5 x5 x6"
  let ?r3 = "\<lambda>x3 x4 x5 x6. json_member ''action'' x3 @ '','' @ ?r4 x4 x5 x6"
  let ?r2 = "\<lambda>x2 x3 x4 x5 x6. json_member ''orgId'' x2 @ '','' @ ?r3 x3 x4 x5 x6"
  from assms have "json_member ''userId'' a1 @ ('','' @ ?r2 a2 a3 a4 a5 a6)
      = json_member ''userId'' b1 @ ('','' @ ?r2 b2 b3 b4 b5 b6)"
    by (simp add: stringifySigned_def)
  from json_member_inj [OF this] have e1: "a1 = b1" and s2: "?r2 a2 a3 a4 a5 a6 = ?r2 b2 b3 b4 b5 b6"
    by simp_all
  from s2 have "json_member ''orgId'' a2 @ ('','' @ ?r3 a3 a4 a5 a6)
      = json_member ''orgId'' b2 @ ('','' @ ?r3 b3 b4 b5 b6)" by simp
  from json_member_inj [OF this] have e2: "a2 = b2" and s3: "?r3 a3 a4 a5 a6 = ?r3 b3 b4 b5 b6"
    by simp_all
  from s3 have "json_member ''action'' a3 @ ('','' @ ?r4 a4 a5 a6)
      = json_member ''action'' b3 @ ('','' @ ?r4 b4 b5 b6)" by simp
  from json_member_inj [OF this] have e3: "a3 = b3" and s4: "?r4 a4 a5 a6 = ?r4 b4 b5 b6"
    by simp_all
  from s4 have "json_member ''resourceType'' a4 @ ('','' @ ?r5 a5 a6)
      = json_member ''resourceType'' b4 @ ('','' @ ?r5 b5 b6)" by simp
  from json_member_inj [OF this] have e4: "a4 = b4" and s5: "?r5 a5 a6 = ?r5 b5 b6"
    by simp_all
  from s5 have "json_member ''resourceId'' a5 @ ('','' @ ?t a6)
      = json_member ''resourceId'' b5 @ ('','' @ ?t b6)" by simp
  from json_member_inj [OF this] have e5: "a5 = b5" and s6: "?t a6 = ?t b6"
    by simp_all
  from json_member_inj [OF s6] have e6: "a6 = b6" by simp
  from e1 e2 e3 e4 e5 e6 show ?thesis by simp
qed

subsection \<open>Signing and verifying an audit record\<close>

lemma logAction_entry_signed:
  assumes "logAction_entry L cfg now salt iv entry = Inr e"
  shows "\<exists>k. truthy (HMAC_SECRET cfg) = Some k
           \<and> signedFields e = (userId entry, orgId entry, action entry, resourceType entry,
                                resourceId entry, Date now)
           \<and> signature e = Some (hex_encode (createHmac L ''sha256'' k
                 (stringifySigned (userId entry) (orgId entry) (action entry)
                    (resourceType entry) (resourceId entry) (toISOString L now))))"
  using assms
  by (auto simp: logAction_entry_def Let_def dateToISOString_def createHMAC_def signedFields_def
      AuditLogInput.defs AuditLogEntry.defs split: option.splits sum.splits if_splits)

lemma verifyAuditEntry_invalid_date:
  "timestamp e = Invalid_Date \<Longrightarrow> verifyAuditEntry L cfg e = False"
  by (simp add: verifyAuditEntry_def verifyAuditEntry_try_def dateToISOString_def)

lemma verifyAuditEntry_compare:
  assumes "truthy (HMAC_SECRET cfg) = Some k" and "signedText L e = Some t"
    and "signature e = Some (hex_encode h)"
  shows "verifyAuditEntry L cfg e =
           (case timingSafeEqual h (createHmac L ''sha256'' k t) of Inl x \<Rightarrow> False | Inr b \<Rightarrow> b)"
proof (cases "timestamp e")
  case Invalid_Date
  with assms(2) show ?thesis by (simp add: signedText_def)
next
  case (Date d)
  with assms(2) have t: "t = stringifySigned (userId e) (orgId e) (action e) (resourceType e)
      (resourceId e) (toISOString L d)"
    by (simp add: signedText_def)
  show ?thesis
    by (simp add: verifyAuditEntry_def verifyAuditEntry_try_def dateToISOString_def Date
        verifyHMAC_def createHMAC_def assms(1) assms(3) t hex_decode_encode)
qed

lemma timingSafeEqual_same: "timingSafeEqual h h = Inr True"
  by (simp add: timingSafeEqual_def)

lemma timingSafeEqual_differ:
  "h \<noteq> h' \<Longrightarrow> (case timingSafeEqual h h' of Inl x \<Rightarrow> False | Inr b \<Rightarrow> b) = False"
  by (simp add: timingSafeEqual_def)

lemma signedText_inj:
  assumes "inj (toISOString L)" and "signedText L e = Some t" and "signedText L e' = Some t"
  shows "signedFields e' = signedFields e"
proof -
  from assms(2) obtain d where d: "timestamp e = Date d"
    and t: "t = stringifySigned (userId e) (orgId e) (action e) (resourceType e)
      (resourceId e) (toISOString L d)"
    by (cases "timestamp e") (simp_all add: signedText_def)
  from assms(3) obtain d' where d': "timestamp e' = Date d'"
    and t': "t = stringifySigned (userId e') (orgId e') (action e') (resourceType e')
      (resourceId e') (toISOString L d')"
    by (cases "timestamp e'") (simp_all add: signedText_def)
  from t t' have "stringifySigned (userId e') (orgId e') (action e') (resourceType e')
      (resourceId e') (toISOString L d')
     = stringifySigned (userId e) (orgId e) (action e) (resourceType e)
      (resourceId e) (toISOString L d)"
    by simp
  from stringifySigned_inj [OF this]
  have f: "userId e' = userId e" "orgId e' = orgId e" "action e' = action e"
    "resourceType e' = resourceType e" "resourceId e' = resourceId e"
    "toISOString L d' = toISOString L d"
    by simp_all
  from f(6) assms(1) have "d' = d" by (simp add: inj_def)
  with f d d' show ?thesis by (simp add: signedFields_def)
qed

text \<open>
  Claim C5. The record \<open>logAction\<close> builds and signs verifies. A record that carries
  the same signature and differs from it in a signed field does not verify, given that
  the platform prints different time values differently and that its HMAC tells the two
  signed texts apart.
\<close>

theorem verifyAuditEntry_signed:
  assumes "logAction_entry L cfg now salt iv entry = Inr e"
  shows "verifyAuditEntry L cfg e
         \<and> (signature e' = signature e \<and> signedFields e' \<noteq> signedFields e
              \<and> inj (toISOString L) \<and> hmac_separates L cfg e e'
            \<longrightarrow> \<not> verifyAuditEntry L cfg e')"
proof -
  let ?t = "stringifySigned (userId entry) (orgId entry) (action entry)
              (resourceType entry) (resourceId entry) (toISOString L now)"
  from logAction_entry_signed [OF assms] obtain k where k: "truthy (HMAC_SECRET cfg) = Some k"
    and sf: "signedFields e = (userId entry, orgId entry, action entry, resourceType entry,
                                resourceId entry, Date now)"
    and sg: "signature e = Some (hex_encode (createHmac L ''sha256'' k ?t))"
    by blast
  have st: "signedText L e = Some ?t"
    using sf by (simp add: signedText_def signedFields_def)
  have good: "verifyAuditEntry L cfg e"
    by (simp add: verifyAuditEntry_compare [OF k st sg] timingSafeEqual_same)
  have bad: "\<not> verifyAuditEntry L cfg e'"
    if same: "signature e' = signature e" and diff: "signedFields e' \<noteq> signedFields e"
      and iso: "inj (toISOString L)" and sep: "hmac_separates L cfg e e'"
  proof (cases "signedText L e'")
    case None
    then have "timestamp e' = Invalid_Date"
      by (cases "timestamp e'") (simp_all add: signedText_def)
    then show ?thesis by (simp add: verifyAuditEntry_invalid_date)
  next
    case (Some t')
    have "t' \<noteq> ?t"
    proof
      assume "t' = ?t"
      with Some have "signedText L e' = Some ?t" by simp
      from signedText_inj [OF iso st this] diff show False by simp
    qed
    with sep k st Some
    have "createHmac L ''sha256'' k ?t \<noteq> createHmac L ''sha256'' k t'"
      by (auto simp: hmac_separates_def)
    moreover have "signature e' = Some (hex_encode (createHmac L ''sha256'' k ?t))"
      using same sg by simp
    ultimately show ?thesis
      by (simp add: verifyAuditEntry_compare [OF k Some] timingSafeEqual_differ)
  qed
  from good bad show ?thesis by blast
qed

lemma toy_iso_inj: "inj toy_iso"
proof (rule injI)
  fix a b :: int
  assume e: "toy_iso a = toy_iso b"
  then have s: "(a < 0) = (b < 0)"
    by (auto simp: toy_iso_def split: if_splits)
  from e have "length (toy_iso a) = length (toy_iso b)" by simp
  then have "nat \<bar>a\<bar> = nat \<bar>b\<bar>" by (simp add: toy_iso_def)
  with s show "a = b" by arith
qed

lemma toy_entry:
  "\<exists>e. logAction_entry toyPlatform toyConfig 3 toySalt toyIv entry0 = Inr e"
  by (simp add: logAction_entry_def Let_def dateToISOString_def createHMAC_def toyConfig_def
      entry0_def AuditLogInput.defs AuditLogEntry.defs)


lemma toy_iso_3: "toy_iso 3 = ''+III''"
  by (simp add: toy_iso_def eval_nat_numeral)

lemma toy_iso_4: "toy_iso 4 = ''+IIII''"
  by (simp add: toy_iso_def eval_nat_numeral)

lemma toy_hmacs_differ:
  "createHmac toyPlatform ''sha256'' ''hmac''
     (stringifySigned ''u1'' ''org-A'' ''scenario.create'' ''scenario'' ''s1'' ''+III'')
   \<noteq> createHmac toyPlatform ''sha256'' ''hmac''
     (stringifySigned ''u1'' ''org-A'' ''scenario.create'' ''scenario'' ''s1'' ''+IIII'')"
  by (simp add: toyPlatform_def toy_bytes_def stringifySigned_def json_member_def JSON_quote_def
      json_escape_def dquote_def backslash_def Let_def)


theorem verifyAuditEntry_signed_witness:
  "\<exists>e. logAction_entry toyPlatform toyConfig 3 toySalt toyIv entry0 = Inr e
      \<and> verifyAuditEntry toyPlatform toyConfig e
      \<and> \<not> verifyAuditEntry toyPlatform toyConfig (e\<lparr>timestamp := Date 4\<rparr>)"
proof -
  obtain e where e: "logAction_entry toyPlatform toyConfig 3 toySalt toyIv entry0 = Inr e"
    using toy_entry by blast
  let ?e' = "e\<lparr>timestamp := Date 4\<rparr>"
  from logAction_entry_signed [OF e]
  have sf: "signedFields e = (userId entry0, orgId entry0, action entry0, resourceType entry0,
                               resourceId entry0, Date 3)"
    by blast
  then have f: "userId e = ''u1''" "orgId e = ''org-A''" "action e = ''scenario.create''"
    "resourceType e = ''scenario''" "resourceId e = ''s1''" "timestamp e = Date 3"
    by (simp_all add: signedFields_def entry0_def)
  have a: "signature ?e' = signature e" by simp
  have b: "signedFields ?e' \<noteq> signedFields e" by (simp add: signedFields_def f)
  have c: "inj (toISOString toyPlatform)" by (simp add: toyPlatform_def toy_iso_inj)
  have t: "signedText toyPlatform e = Some (stringifySigned ''u1'' ''org-A'' ''scenario.create''
      ''scenario'' ''s1'' ''+III'')"
    by (simp add: signedText_def f toyPlatform_def toy_iso_3)
  have t': "signedText toyPlatform ?e' = Some (stringifySigned ''u1'' ''org-A'' ''scenario.create''
      ''scenario'' ''s1'' ''+IIII'')"
    by (simp add: signedText_def f toyPlatform_def toy_iso_4)
  have d: "hmac_separates toyPlatform toyConfig e ?e'"
    unfolding hmac_separates_def t t' using toy_hmacs_differ by (simp add: toyConfig_def)
  from verifyAuditEntry_signed [OF e, of ?e'] a b c d e show ?thesis by blast
qed

end
